theory Spec2Isabelle
  imports Complex_Main "HOL-Library.Char_ord" "HOL-Library.List_Lexorder"
begin

section \<open>Data model\<close>

text \<open>
  The repository works on pandas tables of floating-point numbers. In this development a
  floating-point number is idealised as a \<^typ>\<open>real\<close> (no rounding), and a missing value
  (pandas' NaN, as a left join leaves it in an unmatched row) is \<^term>\<open>None\<close> of
  \<^typ>\<open>real option\<close>. The input tables carry numbers only; missing values arise from
  joins and from reindexing. A SectorKey is the tuple (country, sector).
\<close>

datatype py_error = ValueError | KeyError

type_synonym sector_key = "string \<times> string"

text \<open>\<open>loan_data\<close>: columns bank\_id, firm\_id, loan\_amount.\<close>

record loan =
  bank_id :: string
  firm_id :: string
  loan_amount :: real

text \<open>\<open>firm_info\<close> / \<open>firms\<close>: columns firm\_id, country, sector.\<close>

record firm =
  firm_firm_id :: string
  country :: string
  sector :: string

text \<open>\<open>direct_intensity_vector\<close>: one row per (country, sector) of the index.\<close>

record intensity =
  intensity_key :: sector_key
  msa_ghg_per_eur :: real
  msa_lu_per_eur :: real

text \<open>
  A numeric DataFrame indexed by SectorKey: its row labels, its column labels and its
  values, one list per row. The Leontief inverse has SectorKeys as column labels, the
  ENCORE table has service names.
\<close>

record 'c frame =
  frame_index :: "sector_key list"
  frame_columns :: "'c list"
  frame_values :: "real list list"

text \<open>A DataFrame is rectangular: one row of values per row label, one value per column.\<close>

definition rectangular :: "'c frame \<Rightarrow> bool" where
  "rectangular F \<longleftrightarrow>
     length (frame_values F) = length (frame_index F) \<and>
     list_all (\<lambda>r. length r = length (frame_columns F)) (frame_values F)"

section \<open>biodiversity\_footprint.py\<close>

subsection \<open>Propagation (lines 38--55)\<close>

text \<open>\<open>np.diag(v)\<close> of a one-dimensional array.\<close>

definition np_diag :: "real list \<Rightarrow> real list list" where
  "np_diag v =
     map (\<lambda>i. map (\<lambda>j. if i = j then v ! i else 0) [0..<length v]) [0..<length v]"

text \<open>The values of \<open>leontief_inverse.T\<close>: one row per column of the frame.\<close>

definition frame_T :: "'c frame \<Rightarrow> real list list" where
  "frame_T L = map (\<lambda>c. map (\<lambda>r. r ! c) (frame_values L)) [0..<length (frame_columns L)]"

text \<open>
  \<open>np.dot\<close> of two matrices; the right operand is always a square \<open>np.diag\<close> here, whose
  number of columns is the length of its first row.
\<close>

definition np_dot :: "real list list \<Rightarrow> real list list \<Rightarrow> real list list" where
  "np_dot A B =
     map (\<lambda>a. map (\<lambda>j. \<Sum>m\<leftarrow>[0..<length B]. a ! m * B ! m ! j)
                 [0..<(case B of [] \<Rightarrow> 0 | b # _ \<Rightarrow> length b)]) A"

text \<open>
  \<open>leontief_inverse.T @ F\<close> with \<open>F\<close> an ndarray: \<open>DataFrame.dot\<close> raises ValueError
  (dot product shape mismatch) when the number of columns of the left operand, here the
  number of rows of the Leontief inverse, differs from the number of rows of \<open>F\<close>.
  No label is compared: the ndarray carries none.
\<close>

definition frame_T_dot :: "'c frame \<Rightarrow> real list list \<Rightarrow> py_error + real list list" where
  "frame_T_dot L F =
     (if length (frame_index L) \<noteq> length F then Inl ValueError
      else Inr (np_dot (frame_T L) F))"

text \<open>
  \<open>pd.Series(s, index=idx)\<close> for a Series \<open>s\<close> reindexes it: a copy when the labels are the
  same, ValueError when they differ and those of \<open>s\<close> repeat, and a lookup by label
  otherwise, missing where \<open>s\<close> has no such label.
\<close>

definition reindex :: "('k \<times> real) list \<Rightarrow> 'k list \<Rightarrow> py_error + ('k \<times> real option) list" where
  "reindex s idx =
     (if map fst s = idx then Inr (map (\<lambda>(k, v). (k, Some v)) s)
      else if \<not> distinct (map fst s) then Inl ValueError
      else Inr (map (\<lambda>k. (k, map_of s k)) idx))"

text \<open>
  One pressure column: \<open>F = np.diag(v)\<close>, \<open>Ftot = L.T @ F\<close>,
  \<open>pd.Series(Ftot.sum(axis=1), index=L.index)\<close>. The sums are labelled by the columns of
  the Leontief inverse.
\<close>

definition propagate_column ::
  "sector_key frame \<Rightarrow> real list \<Rightarrow> py_error + (sector_key \<times> real option) list" where
  "propagate_column L v =
     (case frame_T_dot L (np_diag v) of
        Inl e \<Rightarrow> Inl e
      | Inr Ftot \<Rightarrow> reindex (zip (frame_columns L) (map sum_list Ftot)) (frame_index L))"

text \<open>\<open>indirect_df\<close>: the total intensity table, one row per row label of the Leontief inverse.\<close>

record total_intensity =
  total_key :: sector_key
  msa_ghg_total_per_eur :: "real option"
  msa_lu_total_per_eur :: "real option"

definition propagate_intensity ::
  "intensity list \<Rightarrow> sector_key frame \<Rightarrow> py_error + total_intensity list" where
  "propagate_intensity D L =
     (case propagate_column L (map msa_ghg_per_eur D) of
        Inl e \<Rightarrow> Inl e
      | Inr indirect_ghg \<Rightarrow>
          (case propagate_column L (map msa_lu_per_eur D) of
             Inl e \<Rightarrow> Inl e
           | Inr indirect_lu \<Rightarrow>
               Inr (map (\<lambda>((k, g), (_, l)).
                           \<lparr>total_key = k, msa_ghg_total_per_eur = g, msa_lu_total_per_eur = l\<rparr>)
                        (zip indirect_ghg indirect_lu))))"

subsection \<open>Allocation to exposures (lines 26--36 and 57--59)\<close>

text \<open>
  \<open>left.merge(right, on=key, how='left')\<close>: every left row is kept, in order, once per
  right row with the same key, and once with the right columns missing when no right row
  has its key. A left row whose own key is missing matches no right row.
\<close>

definition merge_left ::
  "('a \<Rightarrow> 'k option) \<Rightarrow> ('b \<Rightarrow> 'k) \<Rightarrow> 'a list \<Rightarrow> 'b list \<Rightarrow> ('a \<times> 'b option) list" where
  "merge_left lkey rkey left right =
     concat (map (\<lambda>l. case filter (\<lambda>r. lkey l = Some (rkey r)) right of
                          [] \<Rightarrow> [(l, None)]
                        | ms \<Rightarrow> map (\<lambda>r. (l, Some r)) ms) left)"

text \<open>
  A row of \<open>df\<close> after the three merges: the loan, the firm's row of \<open>firm_info\<close>, the row
  of the direct intensity table and the row of the total intensity table, each of the
  last three missing when the join found none.
\<close>

type_synonym df_row = "((loan \<times> firm option) \<times> intensity option) \<times> total_intensity option"

text \<open>\<open>df['key'] = list(zip(df['country'], df['sector']))\<close>, missing for an unknown firm.\<close>

definition key :: "loan \<times> firm option \<Rightarrow> sector_key option" where
  "key r = map_option (\<lambda>f. (country f, sector f)) (snd r)"

definition allocate ::
  "loan list \<Rightarrow> firm list \<Rightarrow> intensity list \<Rightarrow> total_intensity list \<Rightarrow> df_row list" where
  "allocate loan_data firm_info direct_msa indirect_df =
     merge_left (\<lambda>r. key (fst r)) total_key
       (merge_left key intensity_key
          (merge_left (\<lambda>l. Some (firm_id l)) firm_firm_id loan_data firm_info)
          direct_msa)
       indirect_df"

text \<open>The columns computed from a row; a product with a missing value is missing.\<close>

definition row_loan :: "df_row \<Rightarrow> loan" where
  "row_loan r = fst (fst (fst r))"

definition msa_ghg_direct :: "df_row \<Rightarrow> real option" where
  "msa_ghg_direct r = map_option (\<lambda>i. msa_ghg_per_eur i * loan_amount (row_loan r)) (snd (fst r))"

definition msa_lu_direct :: "df_row \<Rightarrow> real option" where
  "msa_lu_direct r = map_option (\<lambda>i. msa_lu_per_eur i * loan_amount (row_loan r)) (snd (fst r))"

definition msa_ghg_total :: "df_row \<Rightarrow> real option" where
  "msa_ghg_total r =
     (case snd r of None \<Rightarrow> None
      | Some t \<Rightarrow> map_option (\<lambda>x. x * loan_amount (row_loan r)) (msa_ghg_total_per_eur t))"

definition msa_lu_total :: "df_row \<Rightarrow> real option" where
  "msa_lu_total r =
     (case snd r of None \<Rightarrow> None
      | Some t \<Rightarrow> map_option (\<lambda>x. x * loan_amount (row_loan r)) (msa_lu_total_per_eur t))"

subsection \<open>Aggregation per bank (lines 62--68)\<close>

text \<open>The \<open>'sum'\<close> aggregation skips missing values; an empty sum is 0.\<close>

definition nansum :: "real option list \<Rightarrow> real" where
  "nansum xs = sum_list (map (\<lambda>x. case x of None \<Rightarrow> 0 | Some v \<Rightarrow> v) xs)"

record bank_fp =
  fp_bank_id :: string
  fp_msa_ghg_total :: real
  fp_msa_lu_total :: real
  fp_msa_total :: real

text \<open>\<open>groupby('bank_id')\<close> yields one row per bank, the banks in sorted order.\<close>

definition aggregate :: "df_row list \<Rightarrow> bank_fp list" where
  "aggregate df =
     map (\<lambda>b. let g = filter (\<lambda>r. bank_id (row_loan r) = b) df;
                  ghg = nansum (map msa_ghg_total g);
                  lu = nansum (map msa_lu_total g)
              in \<lparr>fp_bank_id = b, fp_msa_ghg_total = ghg, fp_msa_lu_total = lu,
                  fp_msa_total = ghg + lu\<rparr>)
         (sort (remdups (map (\<lambda>r. bank_id (row_loan r)) df)))"

text \<open>The function of the module; \<open>msa_ghg_factor\<close> is a parameter the body never reads.\<close>

definition compute_bank_biodiversity_footprint ::
  "loan list \<Rightarrow> firm list \<Rightarrow> intensity list \<Rightarrow> sector_key frame \<Rightarrow> real \<Rightarrow> py_error + bank_fp list" where
  "compute_bank_biodiversity_footprint loan_data firm_info direct_intensity_vector
       leontief_inverse msa_ghg_factor =
     (case propagate_intensity direct_intensity_vector leontief_inverse of
        Inl e \<Rightarrow> Inl e
      | Inr indirect_df \<Rightarrow>
          Inr (aggregate (allocate loan_data firm_info direct_intensity_vector indirect_df)))"

text \<open>
  The footprint of one bank in the returned table, all zero for a bank with no row: the
  reading of a footprint table under which two tables are added bank by bank.
\<close>

definition footprint_of :: "bank_fp list \<Rightarrow> string \<Rightarrow> real \<times> real \<times> real" where
  "footprint_of fps b =
     (case find (\<lambda>r. fp_bank_id r = b) fps of
        None \<Rightarrow> (0, 0, 0)
      | Some r \<Rightarrow> (fp_msa_ghg_total r, fp_msa_lu_total r, fp_msa_total r))"

text \<open>Every entry of the direct intensity table multiplied by a constant.\<close>

definition scale_intensity :: "real \<Rightarrow> intensity list \<Rightarrow> intensity list" where
  "scale_intensity c D =
     map (\<lambda>d. d\<lparr>msa_ghg_per_eur := c * msa_ghg_per_eur d,
                 msa_lu_per_eur := c * msa_lu_per_eur d\<rparr>) D"

definition scale_total :: "real \<Rightarrow> total_intensity list \<Rightarrow> total_intensity list" where
  "scale_total c T =
     map (\<lambda>t. t\<lparr>msa_ghg_total_per_eur := map_option ((*) c) (msa_ghg_total_per_eur t),
                 msa_lu_total_per_eur := map_option ((*) c) (msa_lu_total_per_eur t)\<rparr>) T"

section \<open>dependency.py\<close>

text \<open>The row a table has for a SectorKey, on a table with unique row labels.\<close>

definition row_of :: "'c frame \<Rightarrow> sector_key \<Rightarrow> real list option" where
  "row_of F k = map_of (zip (frame_index F) (frame_values F)) k"

text \<open>
  \<open>frame.loc[(c, j)]\<close> on a table with unique row labels and two-level row labels. A
  tuple that is a row label selects its row. A tuple that is no row label is read as
  \<open>frame.loc[c, j]\<close>, the rows of country \<open>c\<close> and the columns named \<open>j\<close>: KeyError
  (\<open>Missing\<close>) when no row label has country \<open>c\<close> or \<open>j\<close> names no column, and otherwise a
  selection that is not a row (\<open>Block\<close>) and no exception. \<open>heads\<close> are the
  names by which a column is selected: the service names of the ENCORE table, and the
  countries of the column labels of the Leontief inverse.
\<close>

datatype loc_result = Row "real list" | Block | Missing

definition loc :: "string list \<Rightarrow> 'c frame \<Rightarrow> sector_key \<Rightarrow> loc_result" where
  "loc heads F k =
     (case row_of F k of
        Some r \<Rightarrow> Row r
      | None \<Rightarrow>
          if fst k \<in> set (map fst (frame_index F)) \<and> snd k \<in> set heads then Block
          else Missing)"

text \<open>
  \<open>encore_ds_direct.mul(weights.values, axis=0).sum()\<close>: row \<open>i\<close> of the table is multiplied
  by the \<open>i\<close>-th weight, by position, and the columns are summed. An array whose length is
  not the number of rows of the table raises ValueError, which \<open>except KeyError\<close> does
  not catch.
\<close>

definition mul_sum :: "string frame \<Rightarrow> real list \<Rightarrow> py_error + real list" where
  "mul_sum E weights =
     (if length weights \<noteq> length (frame_index E) then Inl ValueError
      else let scaled = map (\<lambda>(r, w). map (\<lambda>x. x * w) r) (zip (frame_values E) weights)
           in Inr (map (\<lambda>s. sum_list (map (\<lambda>r. r ! s) scaled)) [0..<length (frame_columns E)]))"

text \<open>
  Lines 39--52. When \<open>leontief_inverse.loc[(c, j)]\<close> is not a row, \<open>row_L.sum()\<close> is a
  Series and \<open>if row_sum > 0\<close> raises ValueError.
\<close>

definition indirect_score :: "string frame \<Rightarrow> sector_key frame \<Rightarrow> sector_key \<Rightarrow> py_error + real list" where
  "indirect_score E L k =
     (case loc (map fst (frame_columns L)) L k of
        Missing \<Rightarrow> Inr (replicate (length (frame_columns E)) 0)
      | Block \<Rightarrow> Inl ValueError
      | Row row_L \<Rightarrow>
          let row_sum = sum_list row_L;
              weights = (if row_sum > 0 then map (\<lambda>x. x / row_sum) row_L
                         else map (\<lambda>_. 0) row_L)
          in mul_sum E weights)"

text \<open>
  Lines 33--36. \<^term>\<open>None\<close> when \<open>encore_ds_direct.loc[(c, j)]\<close> is not a row: it is
  then a Series labelled by sector, in which line 58 finds no service \<open>j\<close>.
\<close>

definition ds_direct :: "string frame \<Rightarrow> sector_key \<Rightarrow> real list option" where
  "ds_direct E k =
     (case loc (frame_columns E) E k of
        Row r \<Rightarrow> Some r
      | Missing \<Rightarrow> Some (replicate (length (frame_columns E)) 0)
      | Block \<Rightarrow> None)"

definition total_score :: "real list \<Rightarrow> real list \<Rightarrow> real list" where
  "total_score direct indirect = map (\<lambda>(d, i). d + (1 - d) * i) (zip direct indirect)"

text \<open>
  One entry of \<open>results\<close>: country, sector and, per ecosystem service, the direct, the
  indirect and the total score. It has no firm\_id.
\<close>

record firm_row =
  row_country :: string
  row_sector :: string
  row_scores :: "(string \<times> real \<times> real \<times> real) list"

text \<open>
  One pass of the loop body, lines 30--62. The indirect score is computed, and may
  raise, before line 58 reads the direct score by service name and raises KeyError
  when it is not a row.
\<close>

definition score_key :: "string frame \<Rightarrow> sector_key frame \<Rightarrow> sector_key \<Rightarrow> py_error + firm_row" where
  "score_key E L k =
     (case indirect_score E L k of
        Inl e \<Rightarrow> Inl e
      | Inr ind \<Rightarrow>
          (case ds_direct E k of
             None \<Rightarrow> Inl KeyError
           | Some direct \<Rightarrow>
               Inr \<lparr>row_country = fst k, row_sector = snd k,
                    row_scores = zip (frame_columns E)
                      (zip direct (zip ind (total_score direct ind)))\<rparr>))"

text \<open>The loop over \<open>firm_keys\<close>; the first exception ends it.\<close>

fun score_keys :: "string frame \<Rightarrow> sector_key frame \<Rightarrow> sector_key list \<Rightarrow> py_error + firm_row list" where
  "score_keys E L [] = Inr []"
| "score_keys E L (k # ks) =
     (case score_key E L k of
        Inl e \<Rightarrow> Inl e
      | Inr r \<Rightarrow> (case score_keys E L ks of Inl e \<Rightarrow> Inl e | Inr rs \<Rightarrow> Inr (r # rs)))"

definition compute_dependencies ::
  "firm list \<Rightarrow> string frame \<Rightarrow> sector_key frame \<Rightarrow> py_error + firm_row list" where
  "compute_dependencies firms encore_ds_direct leontief_inverse =
     score_keys encore_ds_direct leontief_inverse (map (\<lambda>f. (country f, sector f)) firms)"

subsection \<open>The scores as the specification words them\<close>




section \<open>Propagation is the row sum of the transposed inverse times the diagonal\<close>

lemma sum_list_delta:
  "(\<Sum>m\<leftarrow>[0..<n]. f m * (if m = j then g m else (0::real))) = (if j < n then f j * g j else 0)"
  by (induction n) (auto simp: less_Suc_eq)

lemma np_diag_cols: "(case np_diag v of [] \<Rightarrow> 0 | b # _ \<Rightarrow> length b) = length v"
  by (cases v) (simp_all add: np_diag_def upt_conv_Cons del: upt_Suc)

lemma np_dot_diag:
  "np_dot A (np_diag v) = map (\<lambda>a. map (\<lambda>j. a ! j * v ! j) [0..<length v]) A"
proof -
  have len: "length (np_diag v) = length v" by (simp add: np_diag_def)
  have ent: "np_diag v ! m ! j = (if m = j then v ! m else 0)"
    if "m < length v" "j < length v" for m j
    using that by (simp add: np_diag_def)
  have "(\<Sum>m\<leftarrow>[0..<length v]. a ! m * np_diag v ! m ! j) = a ! j * v ! j"
    if "j < length v" for a j
  proof -
    have "(\<Sum>m\<leftarrow>[0..<length v]. a ! m * np_diag v ! m ! j)
        = (\<Sum>m\<leftarrow>[0..<length v]. a ! m * (if m = j then v ! m else 0))"
      using that by (intro arg_cong[where f=sum_list] map_cong) (simp_all add: ent)
    then show ?thesis using that by (simp add: sum_list_delta)
  qed
  then show ?thesis
    unfolding np_dot_def np_diag_cols len by simp
qed

lemma row_sums_frame_T:
  assumes "length (frame_values L) = length v"
  shows "map sum_list (np_dot (frame_T L) (np_diag v))
      = map (\<lambda>k. \<Sum>k'\<leftarrow>[0..<length v]. frame_values L ! k' ! k * v ! k')
            [0..<length (frame_columns L)]"
proof -
  have "(\<Sum>j\<leftarrow>[0..<length v]. map (\<lambda>r. r ! k) (frame_values L) ! j * v ! j)
      = (\<Sum>k'\<leftarrow>[0..<length v]. frame_values L ! k' ! k * v ! k')" for k
    using assms by (intro arg_cong[where f=sum_list] map_cong) simp_all
  then show ?thesis
    unfolding np_dot_diag frame_T_def by (simp add: comp_def)
qed

lemma zip_upt_map:
  "length xs = n \<Longrightarrow> zip xs (map f [0..<n]) = map (\<lambda>k. (xs ! k, f k)) [0..<n]"
  by (rule nth_equalityI) simp_all

lemma propagate_column_aligned:
  assumes "rectangular L" "length v = length (frame_index L)" "frame_columns L = frame_index L"
  shows "propagate_column L v =
     Inr (map (\<lambda>k. (frame_index L ! k,
                     Some (\<Sum>k'\<leftarrow>[0..<length v]. frame_values L ! k' ! k * v ! k')))
              [0..<length v])"
proof -
  let ?n = "length v"
  let ?f = "\<lambda>k. \<Sum>k'\<leftarrow>[0..<?n]. frame_values L ! k' ! k * v ! k'"
  have lv: "length (frame_values L) = ?n"
    using assms by (simp add: rectangular_def)
  have dot: "frame_T_dot L (np_diag v) = Inr (np_dot (frame_T L) (np_diag v))"
    using assms(2) by (simp add: frame_T_dot_def np_diag_def)
  have s: "zip (frame_columns L) (map sum_list (np_dot (frame_T L) (np_diag v)))
      = map (\<lambda>k. (frame_index L ! k, ?f k)) [0..<?n]"
    unfolding row_sums_frame_T[OF lv] assms(3) assms(2)[symmetric]
    by (rule zip_upt_map) (simp add: assms(2))
  have fst: "map fst (map (\<lambda>k. (frame_index L ! k, ?f k)) [0..<?n]) = frame_index L"
    using assms(2) by (intro nth_equalityI) simp_all
  show ?thesis
    unfolding propagate_column_def dot sum.case s reindex_def fst
    by simp
qed


lemma zip_same_keys:
  "zip (map (\<lambda>k. (f k, g k)) xs) (map (\<lambda>k. (f k, h k)) xs) = map (\<lambda>k. ((f k, g k), (f k, h k))) xs"
  by (induction xs) simp_all

text \<open>
  Claim C1. When the direct intensity table and the Leontief inverse list the same
  SectorKeys in the same order, on rows and on columns, \<open>propagate_intensity\<close> returns for
  each SectorKey \<open>k\<close> and each pressure the sum over \<open>k'\<close> of \<open>L[k', k] * direct[k']\<close>, the
  row sum of \<open>L\<^sup>T \<sqdot> diag(direct)\<close>; when \<open>L\<close> is the identity matrix the total intensity
  of every SectorKey is its direct intensity.
\<close>

theorem propagate_intensity_row_sums:
  assumes "rectangular L"
      and "frame_index L = map intensity_key D"
      and "frame_columns L = map intensity_key D"
  shows "propagate_intensity D L =
           Inr (map (\<lambda>k. \<lparr>total_key = intensity_key (D ! k),
                           msa_ghg_total_per_eur =
                             Some (\<Sum>k'\<leftarrow>[0..<length D]. frame_values L ! k' ! k * msa_ghg_per_eur (D ! k')),
                           msa_lu_total_per_eur =
                             Some (\<Sum>k'\<leftarrow>[0..<length D]. frame_values L ! k' ! k * msa_lu_per_eur (D ! k'))\<rparr>)
                    [0..<length D])
         \<and> (frame_values L = np_diag (replicate (length D) 1) \<longrightarrow>
              propagate_intensity D L =
                Inr (map (\<lambda>d. \<lparr>total_key = intensity_key d,
                                msa_ghg_total_per_eur = Some (msa_ghg_per_eur d),
                                msa_lu_total_per_eur = Some (msa_lu_per_eur d)\<rparr>) D))"
proof -
  let ?n = "length D"
  have li: "length (frame_index L) = ?n" using assms(2) by simp
  have cols: "frame_columns L = frame_index L" using assms by simp
  have idx: "frame_index L ! k = intensity_key (D ! k)" if "k < ?n" for k
    using that assms(2) by simp
  have col: "propagate_column L (map f D) =
      Inr (map (\<lambda>k. (frame_index L ! k, Some (\<Sum>k'\<leftarrow>[0..<?n]. frame_values L ! k' ! k * f (D ! k'))))
               [0..<?n])" for f :: "intensity \<Rightarrow> real"
  proof -
    have "(\<Sum>k'\<leftarrow>[0..<?n]. frame_values L ! k' ! k * map f D ! k')
        = (\<Sum>k'\<leftarrow>[0..<?n]. frame_values L ! k' ! k * f (D ! k'))" for k
      by (intro arg_cong[where f=sum_list] map_cong) simp_all
    then show ?thesis
      using propagate_column_aligned[OF assms(1) _ cols, of "map f D"] li by simp
  qed
  have main: "propagate_intensity D L =
           Inr (map (\<lambda>k. \<lparr>total_key = intensity_key (D ! k),
                           msa_ghg_total_per_eur =
                             Some (\<Sum>k'\<leftarrow>[0..<?n]. frame_values L ! k' ! k * msa_ghg_per_eur (D ! k')),
                           msa_lu_total_per_eur =
                             Some (\<Sum>k'\<leftarrow>[0..<?n]. frame_values L ! k' ! k * msa_lu_per_eur (D ! k'))\<rparr>)
                    [0..<?n])"
    unfolding propagate_intensity_def col sum.case zip_same_keys
    by (simp add: idx)
  have ident: "(\<Sum>k'\<leftarrow>[0..<?n]. np_diag (replicate ?n 1) ! k' ! k * f (D ! k')) = f (D ! k)"
    if "k < ?n" for k and f :: "intensity \<Rightarrow> real"
  proof -
    have "(\<Sum>k'\<leftarrow>[0..<?n]. np_diag (replicate ?n 1) ! k' ! k * f (D ! k'))
        = (\<Sum>k'\<leftarrow>[0..<?n]. f (D ! k') * (if k' = k then 1 else 0))"
      using that by (intro arg_cong[where f=sum_list] map_cong) (simp_all add: np_diag_def)
    then show ?thesis using that by (simp add: sum_list_delta)
  qed
  have "propagate_intensity D L =
                Inr (map (\<lambda>d. \<lparr>total_key = intensity_key d,
                                msa_ghg_total_per_eur = Some (msa_ghg_per_eur d),
                                msa_lu_total_per_eur = Some (msa_lu_per_eur d)\<rparr>) D)"
    if "frame_values L = np_diag (replicate ?n 1)"
    unfolding main that
    by (intro arg_cong[where f=Inr] nth_equalityI) (simp_all add: ident)
  with main show ?thesis by blast
qed

text \<open>
  The example of the specification: direct GHG intensities \<open>1e-6\<close> and \<open>2e-6\<close> under the
  identity matrix.
\<close>

theorem propagate_intensity_identity_example:
  "propagate_intensity
     [\<lparr>intensity_key = (''DE'', ''A''), msa_ghg_per_eur = 1 / 1000000, msa_lu_per_eur = 0\<rparr>,
      \<lparr>intensity_key = (''FR'', ''B''), msa_ghg_per_eur = 2 / 1000000, msa_lu_per_eur = 0\<rparr>]
     \<lparr>frame_index = [(''DE'', ''A''), (''FR'', ''B'')],
      frame_columns = [(''DE'', ''A''), (''FR'', ''B'')],
      frame_values = [[1, 0], [0, 1]]\<rparr>
   = Inr [\<lparr>total_key = (''DE'', ''A''), msa_ghg_total_per_eur = Some (1 / 1000000),
           msa_lu_total_per_eur = Some 0\<rparr>,
          \<lparr>total_key = (''FR'', ''B''), msa_ghg_total_per_eur = Some (2 / 1000000),
           msa_lu_total_per_eur = Some 0\<rparr>]"
proof -
  have d: "np_diag (replicate (Suc (Suc 0)) 1) = [[1, 0], [0, 1]]"
    by (simp add: np_diag_def)
  show ?thesis
    using propagate_intensity_row_sums
      [of "\<lparr>frame_index = [(''DE'', ''A''), (''FR'', ''B'')],
           frame_columns = [(''DE'', ''A''), (''FR'', ''B'')],
           frame_values = [[1, 0], [0, 1]]\<rparr>"
          "[\<lparr>intensity_key = (''DE'', ''A''), msa_ghg_per_eur = 1 / 1000000, msa_lu_per_eur = 0\<rparr>,
            \<lparr>intensity_key = (''FR'', ''B''), msa_ghg_per_eur = 2 / 1000000, msa_lu_per_eur = 0\<rparr>]"]
    by (simp add: rectangular_def d)
qed

section \<open>Propagation is linear in the direct intensities\<close>

lemma map_of_scale:
  "map_of (map (\<lambda>(k, v). (k, c * v)) s) k = map_option ((*) c) (map_of s k)"
  for c :: real
  by (induction s) auto

lemma reindex_scale:
  "reindex (map (\<lambda>(k, v). (k, c * v)) s) idx =
     (case reindex s idx of
        Inl e \<Rightarrow> Inl e
      | Inr r \<Rightarrow> Inr (map (\<lambda>(k, x). (k, map_option ((*) c) x)) r))"
proof -
  have f: "map fst (map (\<lambda>(k, v). (k, c * v)) s) = map fst s"
    by (induction s) auto
  have a: "map (\<lambda>(k, v). (k, Some v)) (map (\<lambda>(k, v). (k, c * v)) s)
         = map (\<lambda>(k, x). (k, map_option ((*) c) x)) (map (\<lambda>(k, v). (k, Some v)) s)"
    by (induction s) auto
  have b: "map (\<lambda>k. (k, map_of (map (\<lambda>(k, v). (k, c * v)) s) k)) idx
         = map (\<lambda>(k, x). (k, map_option ((*) c) x)) (map (\<lambda>k. (k, map_of s k)) idx)"
    unfolding map_of_scale by (induction idx) auto
  show ?thesis
    unfolding reindex_def f a b by simp
qed

lemma row_sums_scale:
  "map sum_list (np_dot A (np_diag (map ((*) c) v))) =
   map ((*) c) (map sum_list (np_dot A (np_diag v)))"
proof -
  have "(\<Sum>j\<leftarrow>[0..<length v]. a ! j * map ((*) c) v ! j)
      = c * (\<Sum>j\<leftarrow>[0..<length v]. a ! j * v ! j)" for a :: "real list"
  proof -
    have "(\<Sum>j\<leftarrow>[0..<length v]. a ! j * map ((*) c) v ! j)
        = (\<Sum>j\<leftarrow>[0..<length v]. c * (a ! j * v ! j))"
      by (intro arg_cong[where f=sum_list] map_cong) simp_all
    then show ?thesis by (simp add: sum_list_const_mult)
  qed
  then show ?thesis
    unfolding np_dot_diag by (simp add: comp_def)
qed

lemma propagate_column_scale:
  "propagate_column L (map ((*) c) v) =
     (case propagate_column L v of
        Inl e \<Rightarrow> Inl e
      | Inr r \<Rightarrow> Inr (map (\<lambda>(k, x). (k, map_option ((*) c) x)) r))"
proof -
  have z: "zip (frame_columns L) (map ((*) c) ys) = map (\<lambda>(k, v). (k, c * v)) (zip (frame_columns L) ys)"
    for ys :: "real list"
    by (simp add: zip_map2 case_prod_unfold)
  have len: "length (np_diag u) = length u" for u by (simp add: np_diag_def)
  show ?thesis
  proof (cases "length (frame_index L) = length v")
    case True
    then have d: "frame_T_dot L (np_diag u) = Inr (np_dot (frame_T L) (np_diag u))"
      if "length u = length v" for u
      using that by (simp add: frame_T_dot_def len)
    show ?thesis
      unfolding propagate_column_def d[of v, simplified] d[of "map ((*) c) v", simplified]
        sum.case row_sums_scale z reindex_scale ..
  next
    case False
    then show ?thesis
      unfolding propagate_column_def frame_T_dot_def
      by (simp add: len)
  qed
qed

text \<open>
  Claim C6. Multiplying every entry of the direct intensity table by a constant \<open>c\<close>
  multiplies every entry of the total intensity table by \<open>c\<close>; a missing total stays
  missing, and the scaled input fails exactly when the original does.
\<close>

theorem propagate_intensity_linear:
  "propagate_intensity (scale_intensity c D) L =
     (case propagate_intensity D L of
        Inl e \<Rightarrow> Inl e
      | Inr indirect_df \<Rightarrow> Inr (scale_total c indirect_df))"
proof -
  have g: "map msa_ghg_per_eur (scale_intensity c D) = map ((*) c) (map msa_ghg_per_eur D)"
    by (simp add: scale_intensity_def comp_def)
  have l: "map msa_lu_per_eur (scale_intensity c D) = map ((*) c) (map msa_lu_per_eur D)"
    by (simp add: scale_intensity_def comp_def)
  have t: "map (\<lambda>((k, g), (_, l)).
              \<lparr>total_key = k, msa_ghg_total_per_eur = g, msa_lu_total_per_eur = l\<rparr>)
             (zip (map (\<lambda>(k, x). (k, map_option ((*) c) x)) xs)
                  (map (\<lambda>(k, x). (k, map_option ((*) c) x)) ys))
         = scale_total c (map (\<lambda>((k, g), (_, l)).
              \<lparr>total_key = k, msa_ghg_total_per_eur = g, msa_lu_total_per_eur = l\<rparr>) (zip xs ys))"
    for xs ys :: "(sector_key \<times> real option) list"
    unfolding scale_total_def by (induction xs ys rule: list_induct2') auto
  show ?thesis
    unfolding propagate_intensity_def g l propagate_column_scale
    by (cases "propagate_column L (map msa_ghg_per_eur D)";
        cases "propagate_column L (map msa_lu_per_eur D)") (simp_all add: t)
qed

section \<open>When propagation fails\<close>









section \<open>Allocation and aggregation\<close>

lemma merge_left_append:
  "merge_left lk rk (xs @ ys) right = merge_left lk rk xs right @ merge_left lk rk ys right"
  by (simp add: merge_left_def)

lemma allocate_append:
  "allocate (A @ B) firm_info D T = allocate A firm_info D T @ allocate B firm_info D T"
  by (simp add: allocate_def merge_left_append)

lemma nansum_append: "nansum (xs @ ys) = nansum xs + nansum ys"
  by (simp add: nansum_def)

lemma find_map_key:
  assumes "\<And>b. k (F b) = b"
  shows "find (\<lambda>r. k r = b) (map F bs) = (if b \<in> set bs then Some (F b) else None)"
  using assms by (induction bs) auto

lemma footprint_of_aggregate:
  "footprint_of (aggregate df) b =
     (nansum (map msa_ghg_total (filter (\<lambda>r. bank_id (row_loan r) = b) df)),
      nansum (map msa_lu_total (filter (\<lambda>r. bank_id (row_loan r) = b) df)),
      nansum (map msa_ghg_total (filter (\<lambda>r. bank_id (row_loan r) = b) df)) +
      nansum (map msa_lu_total (filter (\<lambda>r. bank_id (row_loan r) = b) df)))"
proof -
  let ?F = "\<lambda>b. let g = filter (\<lambda>r. bank_id (row_loan r) = b) df;
                  ghg = nansum (map msa_ghg_total g);
                  lu = nansum (map msa_lu_total g)
              in \<lparr>fp_bank_id = b, fp_msa_ghg_total = ghg, fp_msa_lu_total = lu,
                  fp_msa_total = ghg + lu\<rparr>"
  have k: "fp_bank_id (?F b) = b" for b by (simp add: Let_def)
  have f: "find (\<lambda>r. fp_bank_id r = b) (aggregate df)
      = (if b \<in> set (map (\<lambda>r. bank_id (row_loan r)) df) then Some (?F b) else None)"
    unfolding aggregate_def using find_map_key[of fp_bank_id ?F, OF k] by simp
  show ?thesis
  proof (cases "b \<in> set (map (\<lambda>r. bank_id (row_loan r)) df)")
    case True
    then show ?thesis unfolding footprint_of_def f by (simp add: Let_def)
  next
    case False
    then have "filter (\<lambda>r. bank_id (row_loan r) = b) df = []"
      by (auto simp: filter_empty_conv)
    then show ?thesis unfolding footprint_of_def f using False by (simp add: nansum_def)
  qed
qed

lemma banks_aggregate:
  "set (map fp_bank_id (aggregate df)) = set (map (\<lambda>r. bank_id (row_loan r)) df)"
  by (simp add: aggregate_def comp_def Let_def)

text \<open>
  Claim C7. Two disjoint exposure sets are two lists of loans and their union is the
  concatenation. For every bank and each pressure, and for the grand total, the
  footprint of the union is the sum of the footprints of the two parts, a bank with no
  row counting as zero; the banks of the union are those of either part.
\<close>

theorem aggregate_additive:
  "(case footprint_of (aggregate (allocate (A @ B) firm_info D T)) b of (ghg, lu, tot) \<Rightarrow>
    case footprint_of (aggregate (allocate A firm_info D T)) b of (ghg_A, lu_A, tot_A) \<Rightarrow>
    case footprint_of (aggregate (allocate B firm_info D T)) b of (ghg_B, lu_B, tot_B) \<Rightarrow>
      ghg = ghg_A + ghg_B \<and> lu = lu_A + lu_B \<and> tot = tot_A + tot_B)
   \<and> set (map fp_bank_id (aggregate (allocate (A @ B) firm_info D T))) =
       set (map fp_bank_id (aggregate (allocate A firm_info D T))) \<union>
       set (map fp_bank_id (aggregate (allocate B firm_info D T)))"
  unfolding footprint_of_aggregate banks_aggregate allocate_append
  by (simp add: nansum_append)


lemma merge_left_unmatched:
  assumes "\<And>r. r \<in> set right \<Longrightarrow> lk l \<noteq> Some (rk r)"
  shows "merge_left lk rk [l] right = [(l, None)]"
proof -
  have "filter (\<lambda>r. lk l = Some (rk r)) right = []"
    using assms by (auto simp: filter_empty_conv)
  then show ?thesis by (simp add: merge_left_def)
qed

lemma allocate_unknown_firm:
  assumes "firm_id l \<notin> firm_firm_id ` set firm_info"
  shows "allocate [l] firm_info D T = [(((l, None), None), None)]"
proof -
  have 1: "merge_left (\<lambda>l. Some (firm_id l)) firm_firm_id [l] firm_info = [(l, None)]"
    using assms by (intro merge_left_unmatched) auto
  have 2: "merge_left key intensity_key [(l, None)] D = [((l, None), None)]"
    by (intro merge_left_unmatched) (simp add: key_def)
  have 3: "merge_left (\<lambda>r. key (fst r)) total_key [((l, None), None)] T = [(((l, None), None), None)]"
    by (intro merge_left_unmatched) (simp add: key_def)
  show ?thesis unfolding allocate_def 1 2 3 ..
qed

lemma compute_isl:
  "isl (compute_bank_biodiversity_footprint loan_data firm_info D L f) \<longleftrightarrow>
     isl (propagate_intensity D L)"
  unfolding compute_bank_biodiversity_footprint_def
  by (cases "propagate_intensity D L") simp_all

text \<open>
  Claim C4, as the code has it. An exposure whose firm\_id is absent from \<open>firm_info\<close> is
  no error: the left join keeps exactly one row for it, with a missing key and missing
  direct and total impacts for both pressures, and the exposure does not change whether
  the computation fails.
\<close>

theorem unknown_counterparty_kept:
  assumes "firm_id l \<notin> firm_firm_id ` set firm_info"
  shows "allocate (A @ l # B) firm_info D T =
           allocate A firm_info D T @ [(((l, None), None), None)] @ allocate B firm_info D T
       \<and> key (l, None) = None
       \<and> msa_ghg_direct (((l, None), None), None) = None
       \<and> msa_lu_direct (((l, None), None), None) = None
       \<and> msa_ghg_total (((l, None), None), None) = None
       \<and> msa_lu_total (((l, None), None), None) = None
       \<and> isl (compute_bank_biodiversity_footprint (A @ l # B) firm_info D L f) =
           isl (compute_bank_biodiversity_footprint (A @ B) firm_info D L f)"
proof -
  have "allocate (A @ l # B) firm_info D T =
      allocate A firm_info D T @ allocate [l] firm_info D T @ allocate B firm_info D T"
    using allocate_append[of A "[l] @ B"] allocate_append[of "[l]" B] by simp
  then show ?thesis
    unfolding allocate_unknown_firm[OF assms] compute_isl
    by (simp add: key_def msa_ghg_direct_def msa_lu_direct_def msa_ghg_total_def msa_lu_total_def)
qed

text \<open>
  A loan to \<open>FIRM_9\<close>, which \<open>firm_info\<close> does not list.
\<close>

theorem unknown_counterparty_kept_witness:
  "allocate [\<lparr>bank_id = ''BANK_1'', firm_id = ''FIRM_9'', loan_amount = 1000000\<rparr>]
     [\<lparr>firm_firm_id = ''FIRM_0'', country = ''DE'', sector = ''A''\<rparr>]
     [\<lparr>intensity_key = (''DE'', ''A''), msa_ghg_per_eur = 1 / 1000000, msa_lu_per_eur = 0\<rparr>]
     [\<lparr>total_key = (''DE'', ''A''), msa_ghg_total_per_eur = Some (1 / 1000000),
       msa_lu_total_per_eur = Some 0\<rparr>]
   = [(((\<lparr>bank_id = ''BANK_1'', firm_id = ''FIRM_9'', loan_amount = 1000000\<rparr>, None), None), None)]"
  using unknown_counterparty_kept
    [of "\<lparr>bank_id = ''BANK_1'', firm_id = ''FIRM_9'', loan_amount = 1000000\<rparr>"
        "[\<lparr>firm_firm_id = ''FIRM_0'', country = ''DE'', sector = ''A''\<rparr>]"
        "[]" "[]"
        "[\<lparr>intensity_key = (''DE'', ''A''), msa_ghg_per_eur = 1 / 1000000, msa_lu_per_eur = 0\<rparr>]"
        "[\<lparr>total_key = (''DE'', ''A''), msa_ghg_total_per_eur = Some (1 / 1000000),
           msa_lu_total_per_eur = Some 0\<rparr>]"]
  by (simp add: allocate_def merge_left_def)

text \<open>
  The same loan through the whole function: a footprint is returned, all zero for its
  bank, and no UnknownCounterparty error.
\<close>

theorem unknown_counterparty_no_failure:
  "compute_bank_biodiversity_footprint
     [\<lparr>bank_id = ''BANK_1'', firm_id = ''FIRM_9'', loan_amount = 1000000\<rparr>]
     [\<lparr>firm_firm_id = ''FIRM_0'', country = ''DE'', sector = ''A''\<rparr>]
     [\<lparr>intensity_key = (''DE'', ''A''), msa_ghg_per_eur = 1 / 1000000, msa_lu_per_eur = 0\<rparr>]
     \<lparr>frame_index = [(''DE'', ''A'')], frame_columns = [(''DE'', ''A'')], frame_values = [[1]]\<rparr>
     (437 / 10000000)
   = Inr [\<lparr>fp_bank_id = ''BANK_1'', fp_msa_ghg_total = 0, fp_msa_lu_total = 0, fp_msa_total = 0\<rparr>]"
  by (simp add: compute_bank_biodiversity_footprint_def propagate_intensity_def
        propagate_column_def frame_T_dot_def np_diag_def np_dot_def frame_T_def reindex_def
        allocate_def merge_left_def key_def aggregate_def nansum_def row_loan_def
        msa_ghg_total_def msa_lu_total_def)

lemma merge_left_member:
  assumes "(x, y) \<in> set (merge_left lk rk left right)"
  shows "x \<in> set left" and "\<And>r. y = Some r \<Longrightarrow> r \<in> set right \<and> lk x = Some (rk r)"
proof -
  from assms obtain l where l: "l \<in> set left"
    and m: "(x, y) \<in> set (case filter (\<lambda>r. lk l = Some (rk r)) right of
                          [] \<Rightarrow> [(l, None)]
                        | ms \<Rightarrow> map (\<lambda>r. (l, Some r)) ms)"
    unfolding merge_left_def by auto
  have xl: "x = l" using m by (auto split: list.splits)
  show "x \<in> set left" using l xl by simp
  show "r \<in> set right \<and> lk x = Some (rk r)" if "y = Some r" for r
  proof -
    define ms where "ms = filter (\<lambda>r. lk l = Some (rk r)) right"
    have "(x, y) \<in> set (case ms of [] \<Rightarrow> [(l, None)] | _ \<Rightarrow> map (\<lambda>r. (l, Some r)) ms)"
      using m unfolding ms_def by (simp split: list.splits)
    then have "r \<in> set ms"
      using that by (cases ms) auto
    then show ?thesis using xl unfolding ms_def by simp
  qed
qed

lemma nansum_None: "nansum (xs @ None # ys) = nansum (xs @ ys)"
  by (simp add: nansum_def)

lemma footprint_drop_missing:
  assumes "msa_ghg_total r = None" "msa_lu_total r = None"
  shows "footprint_of (aggregate (xs @ r # ys)) b = footprint_of (aggregate (xs @ ys)) b"
  unfolding footprint_of_aggregate using assms
  by (simp add: nansum_None)

text \<open>
  Claim C5, as the code has it. For an exposure whose SectorKey is in neither the direct
  nor the total intensity table, the direct and total impacts of both pressures are
  missing values, not zero. The aggregation skips them: the bank of the exposure has its
  row in the result, and removing the exposure's row from any table changes the sums of
  no bank.
\<close>

theorem unmodelled_sector_missing:
  assumes "r \<in> set (allocate loan_data firm_info D T)"
      and "key (fst (fst r)) = Some k"
      and "k \<notin> intensity_key ` set D"
      and "k \<notin> total_key ` set T"
  shows "msa_ghg_direct r = None \<and> msa_lu_direct r = None
       \<and> msa_ghg_total r = None \<and> msa_lu_total r = None
       \<and> bank_id (row_loan r) \<in> set (map fp_bank_id (aggregate (allocate loan_data firm_info D T)))
       \<and> (\<forall>xs ys b. footprint_of (aggregate (xs @ r # ys)) b = footprint_of (aggregate (xs @ ys)) b)"
proof -
  obtain lf i t where r: "r = ((lf, i), t)" by (metis surj_pair)
  let ?df2 = "merge_left key intensity_key
          (merge_left (\<lambda>l. Some (firm_id l)) firm_firm_id loan_data firm_info) D"
  have in3: "((lf, i), t) \<in> set (merge_left (\<lambda>r. key (fst r)) total_key ?df2 T)"
    using assms(1) unfolding allocate_def r .
  have in2: "(lf, i) \<in> set ?df2" using merge_left_member(1)[OF in3] .
  have klf: "key lf = Some k" using assms(2) unfolding r by simp
  have i: "i = None"
  proof (cases i)
    case (Some d)
    then show ?thesis using merge_left_member(2)[OF in2 Some] klf assms(3) by auto
  qed simp
  have t: "t = None"
  proof (cases t)
    case (Some u)
    then show ?thesis using merge_left_member(2)[OF in3 Some] klf assms(4) by auto
  qed simp
  have d: "msa_ghg_direct r = None" "msa_lu_direct r = None"
    unfolding r i t by (simp_all add: msa_ghg_direct_def msa_lu_direct_def)
  have tt: "msa_ghg_total r = None" "msa_lu_total r = None"
    unfolding r i t by (simp_all add: msa_ghg_total_def msa_lu_total_def)
  have b: "bank_id (row_loan r) \<in> set (map fp_bank_id (aggregate (allocate loan_data firm_info D T)))"
    unfolding banks_aggregate using assms(1) by simp
  show ?thesis using d tt b footprint_drop_missing[OF tt] by blast
qed

text \<open>
  A loan to a firm of sector \<open>(XX, Y)\<close>, which the tables do not have.
\<close>

theorem unmodelled_sector_missing_witness:
  "msa_ghg_direct (((\<lparr>bank_id = ''BANK_1'', firm_id = ''FIRM_0'', loan_amount = 1000000\<rparr>,
        Some \<lparr>firm_firm_id = ''FIRM_0'', country = ''XX'', sector = ''Y''\<rparr>), None), None) = None
   \<and> msa_ghg_total (((\<lparr>bank_id = ''BANK_1'', firm_id = ''FIRM_0'', loan_amount = 1000000\<rparr>,
        Some \<lparr>firm_firm_id = ''FIRM_0'', country = ''XX'', sector = ''Y''\<rparr>), None), None) = None
   \<and> ''BANK_1'' \<in> set (map fp_bank_id (aggregate (allocate
        [\<lparr>bank_id = ''BANK_1'', firm_id = ''FIRM_0'', loan_amount = 1000000\<rparr>]
        [\<lparr>firm_firm_id = ''FIRM_0'', country = ''XX'', sector = ''Y''\<rparr>]
        [\<lparr>intensity_key = (''DE'', ''A''), msa_ghg_per_eur = 1 / 1000000, msa_lu_per_eur = 0\<rparr>]
        [\<lparr>total_key = (''DE'', ''A''), msa_ghg_total_per_eur = Some (1 / 1000000),
          msa_lu_total_per_eur = Some 0\<rparr>])))"
proof -
  have a: "allocate
        [\<lparr>bank_id = ''BANK_1'', firm_id = ''FIRM_0'', loan_amount = 1000000\<rparr>]
        [\<lparr>firm_firm_id = ''FIRM_0'', country = ''XX'', sector = ''Y''\<rparr>]
        [\<lparr>intensity_key = (''DE'', ''A''), msa_ghg_per_eur = 1 / 1000000, msa_lu_per_eur = 0\<rparr>]
        [\<lparr>total_key = (''DE'', ''A''), msa_ghg_total_per_eur = Some (1 / 1000000),
          msa_lu_total_per_eur = Some 0\<rparr>]
     = [(((\<lparr>bank_id = ''BANK_1'', firm_id = ''FIRM_0'', loan_amount = 1000000\<rparr>,
        Some \<lparr>firm_firm_id = ''FIRM_0'', country = ''XX'', sector = ''Y''\<rparr>), None), None)]"
    by (simp add: allocate_def merge_left_def key_def)
  show ?thesis
    using unmodelled_sector_missing
      [of "(((\<lparr>bank_id = ''BANK_1'', firm_id = ''FIRM_0'', loan_amount = 1000000\<rparr>,
        Some \<lparr>firm_firm_id = ''FIRM_0'', country = ''XX'', sector = ''Y''\<rparr>), None), None)"
        "[\<lparr>bank_id = ''BANK_1'', firm_id = ''FIRM_0'', loan_amount = 1000000\<rparr>]"
        "[\<lparr>firm_firm_id = ''FIRM_0'', country = ''XX'', sector = ''Y''\<rparr>]"
        "[\<lparr>intensity_key = (''DE'', ''A''), msa_ghg_per_eur = 1 / 1000000, msa_lu_per_eur = 0\<rparr>]"
        "[\<lparr>total_key = (''DE'', ''A''), msa_ghg_total_per_eur = Some (1 / 1000000),
          msa_lu_total_per_eur = Some 0\<rparr>]"
        "(''XX'', ''Y'')"]
    unfolding a by (simp add: key_def row_loan_def)
qed

text \<open>
  The impacts of that exposure are missing, where the claim has them zero.
\<close>

theorem unmodelled_sector_not_zero:
  "map msa_ghg_direct (allocate
        [\<lparr>bank_id = ''BANK_1'', firm_id = ''FIRM_0'', loan_amount = 1000000\<rparr>]
        [\<lparr>firm_firm_id = ''FIRM_0'', country = ''XX'', sector = ''Y''\<rparr>]
        [\<lparr>intensity_key = (''DE'', ''A''), msa_ghg_per_eur = 1 / 1000000, msa_lu_per_eur = 0\<rparr>]
        [\<lparr>total_key = (''DE'', ''A''), msa_ghg_total_per_eur = Some (1 / 1000000),
          msa_lu_total_per_eur = Some 0\<rparr>]) = [None]
   \<and> map msa_ghg_total (allocate
        [\<lparr>bank_id = ''BANK_1'', firm_id = ''FIRM_0'', loan_amount = 1000000\<rparr>]
        [\<lparr>firm_firm_id = ''FIRM_0'', country = ''XX'', sector = ''Y''\<rparr>]
        [\<lparr>intensity_key = (''DE'', ''A''), msa_ghg_per_eur = 1 / 1000000, msa_lu_per_eur = 0\<rparr>]
        [\<lparr>total_key = (''DE'', ''A''), msa_ghg_total_per_eur = Some (1 / 1000000),
          msa_lu_total_per_eur = Some 0\<rparr>]) = [None]"
  by (simp add: allocate_def merge_left_def key_def msa_ghg_direct_def msa_ghg_total_def)

section \<open>Dependency scores\<close>

lemma rectangular_row_length:
  "rectangular F \<Longrightarrow> i < length (frame_index F) \<Longrightarrow> length (frame_values F ! i) = length (frame_columns F)"
  by (simp add: rectangular_def list_all_length)

lemma mul_sum_positional:
  assumes "rectangular E" "length w = length (frame_index E)"
  shows "mul_sum E w =
     Inr (map (\<lambda>s. \<Sum>i\<leftarrow>[0..<length w]. frame_values E ! i ! s * w ! i)
              [0..<length (frame_columns E)])"
proof -
  let ?n = "length w"
  have lv: "length (frame_values E) = ?n" using assms by (simp add: rectangular_def)
  let ?scaled = "map (\<lambda>(r, w). map (\<lambda>x. x * w) r) (zip (frame_values E) w)"
  have col: "map (\<lambda>r. r ! s) ?scaled = map (\<lambda>i. frame_values E ! i ! s * w ! i) [0..<?n]"
    if "s < length (frame_columns E)" for s
  proof (rule nth_equalityI)
    show "length (map (\<lambda>r. r ! s) ?scaled) = length (map (\<lambda>i. frame_values E ! i ! s * w ! i) [0..<?n])"
      using lv by simp
    fix i assume "i < length (map (\<lambda>r. r ! s) ?scaled)"
    then have i: "i < ?n" using lv by simp
    then have "s < length (frame_values E ! i)"
      using rectangular_row_length[OF assms(1), of i] assms(2) that by simp
    then show "map (\<lambda>r. r ! s) ?scaled ! i = map (\<lambda>i. frame_values E ! i ! s * w ! i) [0..<?n] ! i"
      using i lv by simp
  qed
  have "map (\<lambda>s. sum_list (map (\<lambda>r. r ! s) ?scaled)) [0..<length (frame_columns E)]
      = map (\<lambda>s. \<Sum>i\<leftarrow>[0..<?n]. frame_values E ! i ! s * w ! i) [0..<length (frame_columns E)]"
  proof (rule map_cong)
    fix s assume "s \<in> set [0..<length (frame_columns E)]"
    then have "s < length (frame_columns E)" by simp
    from col[OF this] show "sum_list (map (\<lambda>r. r ! s) ?scaled)
        = (\<Sum>i\<leftarrow>[0..<?n]. frame_values E ! i ! s * w ! i)"
      by (rule arg_cong)
  qed simp
  then show ?thesis
    unfolding mul_sum_def using assms(2) by (simp add: Let_def)
qed

lemma row_of_length:
  assumes "rectangular F" "row_of F k = Some row"
  shows "length row = length (frame_columns F)"
proof -
  have "row \<in> set (frame_values F)"
    using assms(2) unfolding row_of_def by (meson map_of_SomeD set_zip_rightD)
  then show ?thesis using assms(1) by (simp add: rectangular_def list_all_iff)
qed

lemma loc_Row: "loc heads F k = Row row \<longleftrightarrow> row_of F k = Some row"
  by (simp add: loc_def split: option.splits)


lemma loc_Block:
  assumes "rectangular F"
  shows "loc heads F k = Block \<longleftrightarrow>
           k \<notin> set (frame_index F) \<and> fst k \<in> fst ` set (frame_index F) \<and> snd k \<in> set heads"
proof -
  have "length (frame_index F) = length (frame_values F)"
    using assms by (simp add: rectangular_def)
  then have "fst ` set (zip (frame_index F) (frame_values F)) = set (frame_index F)"
    by (metis map_fst_zip set_map)
  then have "row_of F k = None \<longleftrightarrow> k \<notin> set (frame_index F)"
    unfolding row_of_def by (simp add: map_of_eq_None_iff)
  then show ?thesis
    by (auto simp: loc_def split: option.splits)
qed

lemma loc_row_length:
  assumes "rectangular F" "loc heads F k = Row row"
  shows "length row = length (frame_columns F)"
  using row_of_length[OF assms(1)] assms(2) by (simp add: loc_Row)

lemma score_keys_Inr:
  "score_keys E L ks = Inr rows \<Longrightarrow> list_all2 (\<lambda>k r. score_key E L k = Inr r) ks rows"
proof (induction ks arbitrary: rows)
  case Nil
  then show ?case by simp
next
  case (Cons k ks)
  then show ?case by (auto split: sum.splits)
qed

lemma score_key_scores:
  assumes "score_key E L k = Inr row" "(es, d, i, t) \<in> set (row_scores row)"
  shows "t = d + (1 - d) * i"
proof -
  obtain ind ds where row: "row_scores row = zip (frame_columns E)
       (zip ds (zip ind (total_score ds ind)))"
    using assms(1) unfolding score_key_def by (auto split: sum.splits option.splits)
  let ?ds = "ds"
  from assms(2) obtain n where n: "n < length ?ds" "n < length ind" "n < length (total_score ?ds ind)"
    and v: "d = ?ds ! n" "i = ind ! n" "t = total_score ?ds ind ! n"
    unfolding row by (auto simp: set_zip)
  show ?thesis using n v by (simp add: total_score_def)
qed

lemma saturating_bound:
  fixes d i :: real
  assumes "0 \<le> d" "d \<le> 1" "0 \<le> i" "i \<le> 1"
  shows "0 \<le> d + (1 - d) * i" and "d + (1 - d) * i \<le> 1"
proof -
  have "0 \<le> (1 - d) * i" using assms by simp
  then show "0 \<le> d + (1 - d) * i" using assms(1) by linarith
  have "(1 - d) * i \<le> (1 - d) * 1"
    using assms by (intro mult_left_mono) simp_all
  then show "d + (1 - d) * i \<le> 1" by simp
qed

text \<open>
  Claim C8. On tables with unique row labels, in every row the scorer returns, the
  total score of a service is \<open>direct + (1 - direct) * indirect\<close>, and it lies in
  \<open>[0, 1]\<close> when the direct and the indirect score do.
\<close>

theorem total_score_bounded:
  assumes "compute_dependencies firms E L = Inr rows"
      and "row \<in> set rows"
      and "(es, d, i, t) \<in> set (row_scores row)"
      and "0 \<le> d" "d \<le> 1" "0 \<le> i" "i \<le> 1"
      and "distinct (frame_index E)" "distinct (frame_index L)"
  shows "t = d + (1 - d) * i \<and> 0 \<le> t \<and> t \<le> 1"
proof -
  have "list_all2 (\<lambda>k r. score_key E L k = Inr r) (map (\<lambda>f. (country f, sector f)) firms) rows"
    using assms(1) unfolding compute_dependencies_def by (rule score_keys_Inr)
  then obtain k where "score_key E L k = Inr row"
    using assms(2) by (auto simp: list_all2_conv_all_nth in_set_conv_nth)
  then have t: "t = d + (1 - d) * i" using assms(3) by (rule score_key_scores)
  show ?thesis unfolding t using saturating_bound[OF assms(4-7)] by simp
qed


text \<open>
  A firm of sector \<open>(DE, A)\<close> with direct score \<open>1/2\<close> and indirect score \<open>3/4\<close>.
\<close>

theorem total_score_bounded_witness:
  "compute_dependencies
     [\<lparr>firm_firm_id = ''FIRM_0'', country = ''DE'', sector = ''A''\<rparr>]
     \<lparr>frame_index = [(''DE'', ''A''), (''FR'', ''B'')], frame_columns = [''pollination''],
      frame_values = [[1 / 2], [1]]\<rparr>
     \<lparr>frame_index = [(''DE'', ''A''), (''FR'', ''B'')],
      frame_columns = [(''DE'', ''A''), (''FR'', ''B'')],
      frame_values = [[1, 1], [0, 1]]\<rparr>
   = Inr [\<lparr>row_country = ''DE'', row_sector = ''A'',
           row_scores = [(''pollination'', 1 / 2, 3 / 4, 7 / 8)]\<rparr>]
   \<and> (7 / 8 :: real) = 1 / 2 + (1 - 1 / 2) * (3 / 4) \<and> (0 :: real) \<le> 7 / 8 \<and> (7 / 8 :: real) \<le> 1"
proof -
  have c: "compute_dependencies
     [\<lparr>firm_firm_id = ''FIRM_0'', country = ''DE'', sector = ''A''\<rparr>]
     \<lparr>frame_index = [(''DE'', ''A''), (''FR'', ''B'')], frame_columns = [''pollination''],
      frame_values = [[1 / 2], [1]]\<rparr>
     \<lparr>frame_index = [(''DE'', ''A''), (''FR'', ''B'')],
      frame_columns = [(''DE'', ''A''), (''FR'', ''B'')],
      frame_values = [[1, 1], [0, 1]]\<rparr>
   = Inr [\<lparr>row_country = ''DE'', row_sector = ''A'',
           row_scores = [(''pollination'', 1 / 2, 3 / 4, 7 / 8)]\<rparr>]"
    by (simp add: compute_dependencies_def score_key_def indirect_score_def loc_def row_of_def
          mul_sum_def ds_direct_def total_score_def Let_def)
  show ?thesis
    using c total_score_bounded[OF c, of "\<lparr>row_country = ''DE'', row_sector = ''A'',
           row_scores = [(''pollination'', 1 / 2, 3 / 4, 7 / 8)]\<rparr>" "''pollination''"
           "1 / 2" "3 / 4" "7 / 8"]
    by simp
qed

lemma score_key_labels:
  "score_key E L k = Inr row \<Longrightarrow> row_country row = fst k \<and> row_sector row = snd k"
  unfolding score_key_def by (auto split: sum.splits option.splits)

text \<open>
  Claim C9, as the code has it. On tables with unique row labels, whenever the scorer
  returns, it returns one row for each entry of the firm list, in order, and does not
  merge the rows of firms with the same SectorKey; the row carries the firm's country
  and sector and no firm\_id, two firms with the same (country, sector) get identical
  rows, and the result depends on the firms only through their list of SectorKeys.
\<close>

theorem one_row_per_firm_key:
  assumes "compute_dependencies firms E L = Inr rows"
      and "distinct (frame_index E)" "distinct (frame_index L)"
  shows "length rows = length firms
       \<and> (\<forall>n<length firms. row_country (rows ! n) = country (firms ! n)
                            \<and> row_sector (rows ! n) = sector (firms ! n))
       \<and> (\<forall>m<length firms. \<forall>n<length firms.
             country (firms ! m) = country (firms ! n) \<and> sector (firms ! m) = sector (firms ! n)
             \<longrightarrow> rows ! m = rows ! n)
       \<and> (\<forall>firms'. map (\<lambda>f. (country f, sector f)) firms' = map (\<lambda>f. (country f, sector f)) firms
             \<longrightarrow> compute_dependencies firms' E L = Inr rows)"
proof -
  let ?key = "\<lambda>f. (country f, sector f)"
  have all: "list_all2 (\<lambda>k r. score_key E L k = Inr r) (map ?key firms) rows"
    using assms(1) unfolding compute_dependencies_def by (rule score_keys_Inr)
  then have len: "length rows = length firms"
    by (auto dest: list_all2_lengthD)
  have nth: "score_key E L (?key (firms ! n)) = Inr (rows ! n)" if "n < length firms" for n
    using all that by (auto simp: list_all2_conv_all_nth)
  have lab: "row_country (rows ! n) = country (firms ! n) \<and> row_sector (rows ! n) = sector (firms ! n)"
    if "n < length firms" for n
    using score_key_labels[OF nth[OF that]] by simp
  have same: "rows ! m = rows ! n"
    if "m < length firms" "n < length firms"
       "country (firms ! m) = country (firms ! n) \<and> sector (firms ! m) = sector (firms ! n)" for m n
    using nth[OF that(1)] nth[OF that(2)] that(3) by simp
  have ids: "compute_dependencies firms' E L = Inr rows"
    if "map ?key firms' = map ?key firms" for firms'
    using assms(1) that unfolding compute_dependencies_def by simp
  show ?thesis using len lab same ids by blast
qed

text \<open>
  Three firms, the first and the third of sector \<open>(DE, A)\<close>: three rows, the first and
  the third identical.
\<close>

theorem one_row_per_firm_key_witness:
  "compute_dependencies
     [\<lparr>firm_firm_id = ''FIRM_0'', country = ''DE'', sector = ''A''\<rparr>,
      \<lparr>firm_firm_id = ''FIRM_1'', country = ''FR'', sector = ''B''\<rparr>,
      \<lparr>firm_firm_id = ''FIRM_2'', country = ''DE'', sector = ''A''\<rparr>]
     \<lparr>frame_index = [(''DE'', ''A''), (''FR'', ''B'')], frame_columns = [''pollination''],
      frame_values = [[1 / 2], [1]]\<rparr>
     \<lparr>frame_index = [(''DE'', ''A''), (''FR'', ''B'')],
      frame_columns = [(''DE'', ''A''), (''FR'', ''B'')],
      frame_values = [[1, 1], [0, 1]]\<rparr>
   = Inr [\<lparr>row_country = ''DE'', row_sector = ''A'',
           row_scores = [(''pollination'', 1 / 2, 3 / 4, 7 / 8)]\<rparr>,
          \<lparr>row_country = ''FR'', row_sector = ''B'',
           row_scores = [(''pollination'', 1, 1, 1)]\<rparr>,
          \<lparr>row_country = ''DE'', row_sector = ''A'',
           row_scores = [(''pollination'', 1 / 2, 3 / 4, 7 / 8)]\<rparr>]"
proof -
  have c: "compute_dependencies
     [\<lparr>firm_firm_id = ''FIRM_0'', country = ''DE'', sector = ''A''\<rparr>,
      \<lparr>firm_firm_id = ''FIRM_1'', country = ''FR'', sector = ''B''\<rparr>,
      \<lparr>firm_firm_id = ''FIRM_2'', country = ''DE'', sector = ''A''\<rparr>]
     \<lparr>frame_index = [(''DE'', ''A''), (''FR'', ''B'')], frame_columns = [''pollination''],
      frame_values = [[1 / 2], [1]]\<rparr>
     \<lparr>frame_index = [(''DE'', ''A''), (''FR'', ''B'')],
      frame_columns = [(''DE'', ''A''), (''FR'', ''B'')],
      frame_values = [[1, 1], [0, 1]]\<rparr>
   = Inr [\<lparr>row_country = ''DE'', row_sector = ''A'',
           row_scores = [(''pollination'', 1 / 2, 3 / 4, 7 / 8)]\<rparr>,
          \<lparr>row_country = ''FR'', row_sector = ''B'',
           row_scores = [(''pollination'', 1, 1, 1)]\<rparr>,
          \<lparr>row_country = ''DE'', row_sector = ''A'',
           row_scores = [(''pollination'', 1 / 2, 3 / 4, 7 / 8)]\<rparr>]"
    by (simp add: compute_dependencies_def score_key_def indirect_score_def loc_def row_of_def
          mul_sum_def ds_direct_def total_score_def Let_def)
  show ?thesis
    using c one_row_per_firm_key[OF c] by simp
qed

text \<open>
  Two firms of the one SectorKey \<open>(DE, A)\<close>: the scorer returns two rows, where the claim
  has one row per SectorKey.
\<close>

theorem two_rows_for_one_sector_key:
  "compute_dependencies
     [\<lparr>firm_firm_id = ''FIRM_0'', country = ''DE'', sector = ''A''\<rparr>,
      \<lparr>firm_firm_id = ''FIRM_1'', country = ''DE'', sector = ''A''\<rparr>]
     \<lparr>frame_index = [(''DE'', ''A''), (''FR'', ''B'')], frame_columns = [''pollination''],
      frame_values = [[1 / 2], [1]]\<rparr>
     \<lparr>frame_index = [(''DE'', ''A''), (''FR'', ''B'')],
      frame_columns = [(''DE'', ''A''), (''FR'', ''B'')],
      frame_values = [[1, 1], [0, 1]]\<rparr>
   = Inr [\<lparr>row_country = ''DE'', row_sector = ''A'',
           row_scores = [(''pollination'', 1 / 2, 3 / 4, 7 / 8)]\<rparr>,
          \<lparr>row_country = ''DE'', row_sector = ''A'',
           row_scores = [(''pollination'', 1 / 2, 3 / 4, 7 / 8)]\<rparr>]
   \<and> remdups (map (\<lambda>f. (country f, sector f))
     [\<lparr>firm_firm_id = ''FIRM_0'', country = ''DE'', sector = ''A''\<rparr>,
      \<lparr>firm_firm_id = ''FIRM_1'', country = ''DE'', sector = ''A''\<rparr>]) = [(''DE'', ''A'')]"
  by (simp add: compute_dependencies_def score_key_def indirect_score_def loc_def row_of_def
        mul_sum_def ds_direct_def total_score_def Let_def)

section \<open>The indirect score is a convex combination\<close>

lemma weighted_sum_bounds:
  fixes w x :: "nat \<Rightarrow> real"
  assumes w: "\<And>i. i < n \<Longrightarrow> 0 \<le> w i"
      and one: "(\<Sum>i\<leftarrow>[0..<n]. w i) = 1"
      and x: "\<And>i. i < n \<Longrightarrow> lo \<le> x i \<and> x i \<le> hi"
  shows "lo \<le> (\<Sum>i\<leftarrow>[0..<n]. x i * w i)" and "(\<Sum>i\<leftarrow>[0..<n]. x i * w i) \<le> hi"
proof -
  have "(\<Sum>i\<leftarrow>[0..<n]. lo * w i) \<le> (\<Sum>i\<leftarrow>[0..<n]. x i * w i)"
    by (rule sum_list_mono) (simp add: mult_right_mono w x)
  then show "lo \<le> (\<Sum>i\<leftarrow>[0..<n]. x i * w i)"
    by (simp add: sum_list_const_mult one)
  have "(\<Sum>i\<leftarrow>[0..<n]. x i * w i) \<le> (\<Sum>i\<leftarrow>[0..<n]. hi * w i)"
    by (rule sum_list_mono) (simp add: mult_right_mono w x)
  then show "(\<Sum>i\<leftarrow>[0..<n]. x i * w i) \<le> hi"
    by (simp add: sum_list_const_mult one)
qed

lemma normalised_sum:
  fixes row :: "real list"
  assumes "0 < sum_list row"
  shows "(\<Sum>i\<leftarrow>[0..<length row]. map (\<lambda>x. x / sum_list row) row ! i) = 1"
proof -
  have "(\<Sum>i\<leftarrow>[0..<length row]. map (\<lambda>x. x / sum_list row) row ! i)
      = sum_list (map (\<lambda>x. x / sum_list row) row)"
    using map_nth[of "map (\<lambda>x. x / sum_list row) row"] by simp
  also have "\<dots> = (\<Sum>x\<leftarrow>row. x * inverse (sum_list row))"
    by (simp add: divide_inverse)
  also have "\<dots> = sum_list row * inverse (sum_list row)"
    using sum_list_mult_const[of "\<lambda>x. x" "inverse (sum_list row)" row] by simp
  finally show ?thesis using assms by simp
qed

lemma indirect_score_normalised:
  assumes "rectangular E" "rectangular L"
      and "length (frame_columns L) = length (frame_index E)"
      and "loc (map fst (frame_columns L)) L k = Row row" "0 < sum_list row"
  shows "indirect_score E L k =
     Inr (map (\<lambda>s. \<Sum>i\<leftarrow>[0..<length row]. frame_values E ! i ! s * (map (\<lambda>x. x / sum_list row) row ! i))
              [0..<length (frame_columns E)])"
proof -
  have len: "length row = length (frame_index E)"
    using loc_row_length[OF assms(2,4)] assms(3) by simp
  show ?thesis
    unfolding indirect_score_def
    using assms(4,5) mul_sum_positional[OF assms(1), of "map (\<lambda>x. x / sum_list row) row"] len
    by (simp add: Let_def)
qed

text \<open>
  Claim C10. Let the tables have unique row labels, the columns of the Leontief inverse
  be the row labels of the direct dependency table in the same order, and the row of the
  Leontief inverse for a SectorKey be entrywise non-negative with a positive sum. Then
  the indirect score of each service is a convex combination of the direct values of
  that service: it lies between their minimum and their maximum, and in \<open>[0, 1]\<close> when
  every entry of the table does.
\<close>

theorem indirect_score_convex:
  assumes "rectangular E" "rectangular L"
      and "frame_columns L = frame_index E"
      and "loc (map fst (frame_columns L)) L k = Row row"
      and "list_all (\<lambda>x. 0 \<le> x) row" "0 < sum_list row"
      and "s < length (frame_columns E)"
      and "distinct (frame_index E)" "distinct (frame_index L)"
  shows "\<exists>ind. indirect_score E L k = Inr ind \<and> length ind = length (frame_columns E)
           \<and> Min ((\<lambda>r. r ! s) ` set (frame_values E)) \<le> ind ! s
           \<and> ind ! s \<le> Max ((\<lambda>r. r ! s) ` set (frame_values E))
           \<and> (list_all (list_all (\<lambda>x. 0 \<le> x \<and> x \<le> 1)) (frame_values E)
                \<longrightarrow> 0 \<le> ind ! s \<and> ind ! s \<le> 1)"
proof -
  let ?n = "length row"
  let ?w = "map (\<lambda>x. x / sum_list row) row"
  let ?X = "(\<lambda>r. r ! s) ` set (frame_values E)"
  let ?ind = "map (\<lambda>s. \<Sum>i\<leftarrow>[0..<?n]. frame_values E ! i ! s * (?w ! i))
              [0..<length (frame_columns E)]"
  have ind: "indirect_score E L k = Inr ?ind"
    using indirect_score_normalised[OF assms(1,2) _ assms(4,6)] assms(3) by simp
  have len: "?n = length (frame_values E)"
    using loc_row_length[OF assms(2,4)] assms(1,3) by (simp add: rectangular_def)
  have w: "0 \<le> ?w ! i" if "i < ?n" for i
    using that assms(5,6) by (simp add: list_all_length)
  have one: "(\<Sum>i\<leftarrow>[0..<?n]. ?w ! i) = 1"
    using normalised_sum[OF assms(6)] .
  have mem: "frame_values E ! i ! s \<in> ?X" if "i < ?n" for i
    using that len by simp
  have fin: "finite ?X" by simp
  have mm: "Min ?X \<le> frame_values E ! i ! s \<and> frame_values E ! i ! s \<le> Max ?X" if "i < ?n" for i
    using mem[OF that] fin by simp
  have val: "?ind ! s = (\<Sum>i\<leftarrow>[0..<?n]. frame_values E ! i ! s * (?w ! i))"
    using assms(7) by simp
  have b1: "Min ?X \<le> ?ind ! s" and b2: "?ind ! s \<le> Max ?X"
    unfolding val using weighted_sum_bounds[of ?n "\<lambda>i. ?w ! i" "Min ?X" "\<lambda>i. frame_values E ! i ! s" "Max ?X"]
      w one mm by blast+
  have unit: "0 \<le> ?ind ! s \<and> ?ind ! s \<le> 1"
    if a: "list_all (list_all (\<lambda>x. 0 \<le> x \<and> x \<le> 1)) (frame_values E)"
  proof -
    have "0 \<le> frame_values E ! i ! s \<and> frame_values E ! i ! s \<le> 1" if "i < ?n" for i
    proof -
      have "s < length (frame_values E ! i)"
        using rectangular_row_length[OF assms(1), of i] that len assms(1,7)
        by (simp add: rectangular_def)
      then show ?thesis using a that len by (simp add: list_all_length)
    qed
    then show ?thesis
      unfolding val using weighted_sum_bounds[of ?n "\<lambda>i. ?w ! i" 0 "\<lambda>i. frame_values E ! i ! s" 1]
        w one by blast
  qed
  show ?thesis
    using ind b1 b2 unit by (intro exI[of _ ?ind]) simp
qed

text \<open>
  Direct values \<open>1/2\<close> and \<open>1\<close> under the weights \<open>1/2\<close> and \<open>1/2\<close>.
\<close>

theorem indirect_score_convex_witness:
  "\<exists>ind. indirect_score
     \<lparr>frame_index = [(''DE'', ''A''), (''FR'', ''B'')], frame_columns = [''pollination''],
      frame_values = [[1 / 2], [1]]\<rparr>
     \<lparr>frame_index = [(''DE'', ''A''), (''FR'', ''B'')],
      frame_columns = [(''DE'', ''A''), (''FR'', ''B'')],
      frame_values = [[1, 1], [0, 1]]\<rparr>
     (''DE'', ''A'') = Inr ind
   \<and> 1 / 2 \<le> ind ! 0 \<and> ind ! 0 \<le> 1"
  using indirect_score_convex
    [of "\<lparr>frame_index = [(''DE'', ''A''), (''FR'', ''B'')], frame_columns = [''pollination''],
      frame_values = [[1 / 2], [1]]\<rparr>"
     "\<lparr>frame_index = [(''DE'', ''A''), (''FR'', ''B'')],
      frame_columns = [(''DE'', ''A''), (''FR'', ''B'')],
      frame_values = [[1, 1], [0, 1]]\<rparr>"
     "(''DE'', ''A'')" "[1, 1]" 0]
  by (auto simp: rectangular_def loc_def row_of_def)

section \<open>The scores by position and by SectorKey\<close>












end
